theory Spec2Isabelle
  imports Main "HOL-Library.Char_ord" "HOL-Library.List_Lexorder"
begin

section \<open>Smart Access facilities booking: the booking lifecycle engine\<close>

text \<open>
  A shallow embedding of \<^verbatim>\<open>main.py\<close> and \<^verbatim>\<open>schemas.py\<close>.
  Python strings are character lists (code points below 256), Python integers are
  \<^typ>\<open>int\<close>, and every exception the source can raise is a value of the type
  \<open>error\<close>.
\<close>

subsection \<open>Errors\<close>

text \<open>
  \<^verbatim>\<open>HTTPException(status_code, detail)\<close> is what the handlers raise on purpose.
  \<open>ValueError\<close> and \<open>OverflowError\<close> are the exceptions of \<^verbatim>\<open>int()\<close>,
  of unpacking and of \<^verbatim>\<open>datetime\<close>, which no handler catches.
  \<open>DuplicateKeyError\<close> is the store refusing a second document with the same id.
\<close>

datatype error =
    HTTPException nat string
  | ValueError
  | OverflowError
  | DuplicateKeyError

abbreviation NotFoundFacility :: error where
  "NotFoundFacility \<equiv> HTTPException 404 ''Facility not found''"

abbreviation ValidationError :: error where
  "ValidationError \<equiv> HTTPException 400 ''Invalid time range''"

abbreviation ConflictError :: error where
  "ConflictError \<equiv> HTTPException 409 ''Time slot not available''"

abbreviation InvalidIdError :: error where
  "InvalidIdError \<equiv> HTTPException 400 ''Invalid booking id''"

abbreviation NotFoundError :: error where
  "NotFoundError \<equiv> HTTPException 404 ''Not found''"

abbreviation InvalidStateError :: error where
  "InvalidStateError \<equiv> HTTPException 400 ''Booking not approved''"

abbreviation AuthorizationError :: error where
  "AuthorizationError \<equiv> HTTPException 403 ''Invalid access code''"

subsection \<open>Python's \<^verbatim>\<open>str.split\<close> and \<^verbatim>\<open>int()\<close>\<close>

definition is_digit :: "char \<Rightarrow> bool" where
  "is_digit c \<longleftrightarrow> 48 \<le> (of_char c :: nat) \<and> (of_char c :: nat) \<le> 57"

definition digit_val :: "char \<Rightarrow> int" where
  "digit_val c = int (of_char c) - 48"

text \<open>
  The white space that \<^verbatim>\<open>int()\<close> strips, for code points below 256: the six
  ASCII characters of C's \<^verbatim>\<open>isspace\<close>, and the two Unicode spaces 133 and 160.
\<close>

definition py_isspace :: "char \<Rightarrow> bool" where
  "py_isspace c \<longleftrightarrow>
     (9 \<le> (of_char c :: nat) \<and> (of_char c :: nat) \<le> 13) \<or>
     (of_char c :: nat) = 32 \<or>
     (of_char c :: nat) = 133 \<or> (of_char c :: nat) = 160"

definition strip :: "string \<Rightarrow> string" where
  "strip s = rev (dropWhile py_isspace (rev (dropWhile py_isspace s)))"

text \<open>\<^verbatim>\<open>s.split(sep)\<close> for a one-character separator: one more part than separators.\<close>

fun split_on :: "char \<Rightarrow> string \<Rightarrow> string list" where
  "split_on sep [] = [[]]"
| "split_on sep (c # cs) =
     (if c = sep then [] # split_on sep cs
      else (case split_on sep cs of
              [] \<Rightarrow> [[c]]
            | p # ps \<Rightarrow> (c # p) # ps))"

text \<open>
  The digit part of a decimal literal: digits, with single underscores between digits.
\<close>

fun digits_us :: "string \<Rightarrow> bool" where
  "digits_us [] = False"
| "digits_us [c] = is_digit c"
| "digits_us (c # d # cs) =
     (is_digit c \<and> (if d = CHR ''_'' then digits_us cs else digits_us (d # cs)))"

definition digits_value :: "string \<Rightarrow> int" where
  "digits_value s = foldl (\<lambda>a c. 10 * a + digit_val c) 0 (filter is_digit s)"

text \<open>
  \<^verbatim>\<open>int(s)\<close>: white space stripped at both ends, an optional sign, then the digit
  part; \<open>None\<close> is \<^verbatim>\<open>ValueError\<close>. A literal of more than 4300 digits is refused
  (the interpreter's default limit).
\<close>

definition py_int :: "string \<Rightarrow> int option" where
  "py_int s =
     (let t = strip s;
          neg = (t \<noteq> [] \<and> hd t = CHR ''-'');
          r = (if t \<noteq> [] \<and> (hd t = CHR ''+'' \<or> hd t = CHR ''-'') then tl t else t)
      in if digits_us r \<and> length (filter is_digit r) \<le> 4300
         then Some (if neg then - digits_value r else digits_value r)
         else None)"

text \<open>\<^verbatim>\<open>[int(x) for x in parts]\<close>: the first part that is no integer raises.\<close>

fun py_ints :: "string list \<Rightarrow> int list option" where
  "py_ints [] = Some []"
| "py_ints (p # ps) =
     (case py_int p of
        None \<Rightarrow> None
      | Some n \<Rightarrow> (case py_ints ps of None \<Rightarrow> None | Some ns \<Rightarrow> Some (n # ns)))"

subsection \<open>\<^verbatim>\<open>datetime\<close>\<close>

text \<open>
  A naive \<^verbatim>\<open>datetime\<close> is the number of microseconds since the start of the day
  of ordinal 0 of the proleptic Gregorian calendar (0001-01-01 is ordinal 1), as the
  library computes it for comparison and for adding a \<^verbatim>\<open>timedelta\<close>; a
  \<^verbatim>\<open>date\<close> is its ordinal.
\<close>

type_synonym datetime = int
type_synonym pydate = int

definition is_leap :: "int \<Rightarrow> bool" where
  "is_leap y \<longleftrightarrow> y mod 4 = 0 \<and> (y mod 100 \<noteq> 0 \<or> y mod 400 = 0)"

definition days_in_month :: "int \<Rightarrow> int \<Rightarrow> int" where
  "days_in_month y m =
     (if m = 2 then (if is_leap y then 29 else 28)
      else if m = 4 \<or> m = 6 \<or> m = 9 \<or> m = 11 then 30 else 31)"

definition days_before_year :: "int \<Rightarrow> int" where
  "days_before_year y = (y - 1) * 365 + (y - 1) div 4 - (y - 1) div 100 + (y - 1) div 400"

definition days_before_month :: "int \<Rightarrow> int \<Rightarrow> int" where
  "days_before_month y m =
     [0, 0, 31, 59, 90, 120, 151, 181, 212, 243, 273, 304, 334] ! nat m
       + (if m > 2 \<and> is_leap y then 1 else 0)"

definition ymd2ord :: "int \<Rightarrow> int \<Rightarrow> int \<Rightarrow> pydate" where
  "ymd2ord y m d = days_before_year y + days_before_month y m + d"

definition usec_per_minute :: int where
  "usec_per_minute = 60000000"

definition usec_per_day :: int where
  "usec_per_day = 86400000000"

definition max_ordinal :: int where
  "max_ordinal = 3652059"

definition c_int :: "int \<Rightarrow> bool" where
  "c_int n \<longleftrightarrow> - 2147483648 \<le> n \<and> n \<le> 2147483647"

text \<open>
  \<^verbatim>\<open>date(y, m, d)\<close> and \<^verbatim>\<open>datetime(y, m, d, hh, mm)\<close>: an argument that
  does not fit a C int is an \<^verbatim>\<open>OverflowError\<close>, a field out of range a
  \<^verbatim>\<open>ValueError\<close>.
\<close>

definition mk_date :: "int \<Rightarrow> int \<Rightarrow> int \<Rightarrow> error + pydate" where
  "mk_date y m d =
     (if \<not> (c_int y \<and> c_int m \<and> c_int d) then Inl OverflowError
      else if 1 \<le> y \<and> y \<le> 9999 \<and> 1 \<le> m \<and> m \<le> 12 \<and> 1 \<le> d \<and> d \<le> days_in_month y m
      then Inr (ymd2ord y m d)
      else Inl ValueError)"

definition mk_datetime :: "int \<Rightarrow> int \<Rightarrow> int \<Rightarrow> int \<Rightarrow> int \<Rightarrow> error + datetime" where
  "mk_datetime y m d hh mm =
     (if \<not> (c_int y \<and> c_int m \<and> c_int d \<and> c_int hh \<and> c_int mm) then Inl OverflowError
      else if 1 \<le> y \<and> y \<le> 9999 \<and> 1 \<le> m \<and> m \<le> 12 \<and> 1 \<le> d \<and> d \<le> days_in_month y m
              \<and> 0 \<le> hh \<and> hh \<le> 23 \<and> 0 \<le> mm \<and> mm \<le> 59
      then Inr (ymd2ord y m d * usec_per_day + (hh * 60 + mm) * usec_per_minute)
      else Inl ValueError)"

definition date_of :: "datetime \<Rightarrow> pydate" where
  "date_of t = t div usec_per_day"

text \<open>\<^verbatim>\<open>t + timedelta(minutes=g)\<close>: a result outside years 1..9999 overflows.\<close>

definition add_minutes :: "datetime \<Rightarrow> int \<Rightarrow> error + datetime" where
  "add_minutes t g =
     (let r = t + g * usec_per_minute
      in if 1 \<le> date_of r \<and> date_of r \<le> max_ordinal then Inr r else Inl OverflowError)"

subsection \<open>Time interval utilities\<close>

definition to_local_dt :: "string \<Rightarrow> string \<Rightarrow> error + datetime" where
  "to_local_dt date_str time_str =
     (case py_ints (split_on (CHR ''-'') date_str) of
        Some [y, m, d] \<Rightarrow>
          (case py_ints (split_on (CHR '':'') time_str) of
             Some [hh, mm] \<Rightarrow> mk_datetime y m d hh mm
           | _ \<Rightarrow> Inl ValueError)
      | _ \<Rightarrow> Inl ValueError)"

definition overlaps :: "string \<Rightarrow> string \<Rightarrow> string \<Rightarrow> string \<Rightarrow> error + bool" where
  "overlaps s1 e1 s2 e2 =
     (case to_local_dt ''2000-01-01'' s1 of
        Inl x \<Rightarrow> Inl x
      | Inr a1 \<Rightarrow>
          (case to_local_dt ''2000-01-01'' e1 of
             Inl x \<Rightarrow> Inl x
           | Inr b1 \<Rightarrow>
               (case to_local_dt ''2000-01-01'' s2 of
                  Inl x \<Rightarrow> Inl x
                | Inr a2 \<Rightarrow>
                    (case to_local_dt ''2000-01-01'' e2 of
                       Inl x \<Rightarrow> Inl x
                     | Inr b2 \<Rightarrow> Inr (a1 < b2 \<and> a2 < b1)))))"

text \<open>
  The data model's time of day: two digits, a colon, two digits, the hour at most 23 and
  the minute at most 59; and the minute of the day it denotes.
\<close>

definition valid_hhmm :: "string \<Rightarrow> bool" where
  "valid_hhmm s \<longleftrightarrow>
     (case s of
        [a, b, c, d, e] \<Rightarrow>
          is_digit a \<and> is_digit b \<and> c = CHR '':'' \<and> is_digit d \<and> is_digit e
          \<and> 10 * digit_val a + digit_val b \<le> 23 \<and> 10 * digit_val d + digit_val e \<le> 59
      | _ \<Rightarrow> False)"

definition hhmm_minutes :: "string \<Rightarrow> int" where
  "hhmm_minutes s =
     (10 * digit_val (s ! 0) + digit_val (s ! 1)) * 60 + 10 * digit_val (s ! 3) + digit_val (s ! 4)"

subsection \<open>Documents and the store\<close>

text \<open>
  The two collections of \<^verbatim>\<open>schemas.py\<close>. An \<^verbatim>\<open>ObjectId\<close> is its
  sequence of bytes. A document may lack an optional key, hold it with the value null, or
  hold it with a value: the query \<^verbatim>\<open>{"checked_in_at": {"$exists": False}}\<close>
  selects the documents that lack the key, and null is not a value that equals a string.
  Of a facility only \<^verbatim>\<open>_id\<close> and \<^verbatim>\<open>code\<close> are read by the handlers
  modelled here.
\<close>

datatype 'a field = Absent | Null | Value 'a

type_synonym byte = nat
type_synonym oid = "byte list"

datatype status = Pending | Approved | Rejected | Cancelled | No_show

record facility =
  fac_id :: oid
  code :: string

record booking =
  doc_id :: oid
  facility_id :: string
  facility_code :: string
  user_name :: string
  user_email :: string
  purpose :: "string option"
  date :: string
  start_time :: string
  end_time :: string
  status :: status
  access_code :: "string field"
  checked_in_at :: "datetime field"

record db =
  facility_coll :: "facility list"
  booking_coll :: "booking list"

subsubsection \<open>\<^verbatim>\<open>ObjectId(s)\<close>, \<^verbatim>\<open>str(oid)\<close> and \<^verbatim>\<open>bytes.hex()\<close>\<close>

definition hex_val :: "char \<Rightarrow> nat option" where
  "hex_val c =
     (if is_digit c then Some (of_char c - 48)
      else if 97 \<le> (of_char c :: nat) \<and> (of_char c :: nat) \<le> 102 then Some (of_char c - 87)
      else if 65 \<le> (of_char c :: nat) \<and> (of_char c :: nat) \<le> 70 then Some (of_char c - 55)
      else None)"

definition ascii_space :: "char \<Rightarrow> bool" where
  "ascii_space c \<longleftrightarrow> (9 \<le> (of_char c :: nat) \<and> (of_char c :: nat) \<le> 13) \<or> (of_char c :: nat) = 32"

text \<open>\<^verbatim>\<open>bytes.fromhex\<close>: pairs of hexadecimal digits, white space skipped between pairs.\<close>

fun fromhex :: "string \<Rightarrow> byte list option" where
  "fromhex [] = Some []"
| "fromhex [c] = (if ascii_space c then Some [] else None)"
| "fromhex (c # d # cs) =
     (if ascii_space c then fromhex (d # cs)
      else (case (hex_val c, hex_val d) of
              (Some h, Some l) \<Rightarrow>
                (case fromhex cs of None \<Rightarrow> None | Some bs \<Rightarrow> Some ((16 * h + l) # bs))
            | _ \<Rightarrow> None))"

definition ObjectId :: "string \<Rightarrow> oid option" where
  "ObjectId s = (if length s = 24 then fromhex s else None)"

definition hex_lower_digit :: "nat \<Rightarrow> char" where
  "hex_lower_digit n = ''0123456789abcdef'' ! (n mod 16)"

definition hex_upper_digit :: "nat \<Rightarrow> char" where
  "hex_upper_digit n = ''0123456789ABCDEF'' ! (n mod 16)"

definition oid_str :: "oid \<Rightarrow> string" where
  "oid_str i = concat (map (\<lambda>b. [hex_lower_digit (b div 16), hex_lower_digit b]) i)"

text \<open>\<^verbatim>\<open>os.urandom(3).hex().upper()\<close>, the three random bytes being an input.\<close>

definition new_access_code :: "byte \<times> byte \<times> byte \<Rightarrow> string" where
  "new_access_code r =
     (case r of (a, b, c) \<Rightarrow>
        concat (map (\<lambda>b. [hex_upper_digit (b div 16), hex_upper_digit b]) [a, b, c]))"

subsubsection \<open>Queries and updates\<close>

definition find_facility :: "string \<Rightarrow> db \<Rightarrow> facility option" where
  "find_facility c s = find (\<lambda>f. code f = c) (facility_coll s)"

definition find_booking :: "oid \<Rightarrow> db \<Rightarrow> booking option" where
  "find_booking i s = find (\<lambda>b. doc_id b = i) (booking_coll s)"

definition active :: "booking \<Rightarrow> bool" where
  "active b \<longleftrightarrow> status b = Pending \<or> status b = Approved"

text \<open>
  \<^verbatim>\<open>find({"facility_code": .., "date": .., "status": {"$in": ["pending", "approved"]}})\<close>
\<close>

definition find_active :: "string \<Rightarrow> string \<Rightarrow> db \<Rightarrow> booking list" where
  "find_active fc d s =
     filter (\<lambda>b. facility_code b = fc \<and> date b = d \<and> active b) (booking_coll s)"

text \<open>\<^verbatim>\<open>update_one({"_id": i}, {"$set": ..})\<close> changes the first document of that id.\<close>

fun update_first :: "oid \<Rightarrow> (booking \<Rightarrow> booking) \<Rightarrow> booking list \<Rightarrow> booking list" where
  "update_first i f [] = []"
| "update_first i f (b # bs) = (if doc_id b = i then f b # bs else b # update_first i f bs)"

definition update_one :: "oid \<Rightarrow> (booking \<Rightarrow> booking) \<Rightarrow> db \<Rightarrow> db" where
  "update_one i f s = s\<lparr>booking_coll := update_first i f (booking_coll s)\<rparr>"

text \<open>
  Modelled from the spec: \<^verbatim>\<open>database.create_document\<close> is not among the sources; the
  spec's \<^verbatim>\<open>insertBooking(Booking) -> id\<close> stores the booking under a new id and
  returns the id. The id is the one the driver generates, an input here; the collection
  refuses an id it already holds. What is stored is the \<^verbatim>\<open>Booking\<close> object with
  all the fields of its schema.
\<close>

definition create_document :: "booking \<Rightarrow> db \<Rightarrow> error + db" where
  "create_document b s =
     (if doc_id b \<in> set (map doc_id (booking_coll s)) then Inl DuplicateKeyError
      else Inr (s\<lparr>booking_coll := booking_coll s @ [b]\<rparr>))"

subsection \<open>Booking\<close>

record CreateBooking =
  p_facility_code :: string
  p_user_name :: string
  p_user_email :: string
  p_purpose :: "string option"
  p_date :: string
  p_start_time :: string
  p_end_time :: string

text \<open>The loop over the existing bookings: the first overlap, or the first exception.\<close>

fun check_overlaps :: "string \<Rightarrow> string \<Rightarrow> booking list \<Rightarrow> error + unit" where
  "check_overlaps s e [] = Inr ()"
| "check_overlaps s e (b # bs) =
     (case overlaps s e (start_time b) (end_time b) of
        Inl x \<Rightarrow> Inl x
      | Inr True \<Rightarrow> Inl ConflictError
      | Inr False \<Rightarrow> check_overlaps s e bs)"

text \<open>
  \<^verbatim>\<open>Booking(facility_id=.., .., status="pending")\<close>: the two fields that are not
  given, \<^verbatim>\<open>access_code\<close> and \<^verbatim>\<open>checked_in_at\<close>, take the default
  \<^verbatim>\<open>None\<close> of the schema, so the document holds both keys with the value null.
\<close>

definition new_booking :: "CreateBooking \<Rightarrow> facility \<Rightarrow> oid \<Rightarrow> booking" where
  "new_booking p fac i =
     \<lparr>doc_id = i,
      facility_id = oid_str (fac_id fac),
      facility_code = p_facility_code p,
      user_name = p_user_name p,
      user_email = p_user_email p,
      purpose = p_purpose p,
      date = p_date p,
      start_time = p_start_time p,
      end_time = p_end_time p,
      status = Pending,
      access_code = Null,
      checked_in_at = Null\<rparr>"

text \<open>
  \<^verbatim>\<open>create_booking\<close>; the result is the returned \<^verbatim>\<open>booking_id\<close>, with the
  store after the call. The two times are compared as strings.
\<close>

definition create_booking :: "CreateBooking \<Rightarrow> oid \<Rightarrow> db \<Rightarrow> (error + string) \<times> db" where
  "create_booking p i s =
     (case find_facility (p_facility_code p) s of
        None \<Rightarrow> (Inl NotFoundFacility, s)
      | Some fac \<Rightarrow>
          if p_start_time p \<ge> p_end_time p then (Inl ValidationError, s)
          else
            (case check_overlaps (p_start_time p) (p_end_time p)
                    (find_active (p_facility_code p) (p_date p) s) of
               Inl x \<Rightarrow> (Inl x, s)
             | Inr _ \<Rightarrow>
                 (case create_document (new_booking p fac i) s of
                    Inl x \<Rightarrow> (Inl x, s)
                  | Inr s' \<Rightarrow> (Inr (oid_str i), s'))))"

subsection \<open>Admin action\<close>

datatype AdminAction = approve | reject

definition admin_action ::
  "string \<Rightarrow> AdminAction \<Rightarrow> byte \<times> byte \<times> byte \<Rightarrow> db \<Rightarrow> (error + string) \<times> db" where
  "admin_action booking_id action rnd s =
     (case ObjectId booking_id of
        None \<Rightarrow> (Inl InvalidIdError, s)
      | Some i \<Rightarrow>
          (case find_booking i s of
             None \<Rightarrow> (Inl NotFoundError, s)
           | Some b \<Rightarrow>
               if action = approve
               then (Inr ''Approved'',
                     update_one i (\<lambda>b. b\<lparr>status := Approved,
                                          access_code := Value (new_access_code rnd)\<rparr>) s)
               else (Inr ''Rejected'', update_one i (\<lambda>b. b\<lparr>status := Rejected\<rparr>) s)))"

subsection \<open>Check-in\<close>

text \<open>
  \<^verbatim>\<open>check_in\<close>; \<open>now\<close> is what \<^verbatim>\<open>datetime.utcnow()\<close> returns.
  \<^verbatim>\<open>b.get("access_code")\<close> is \<^verbatim>\<open>None\<close> for a key that is absent or null,
  and differs from every submitted string.
\<close>

definition check_in :: "string \<Rightarrow> string \<Rightarrow> datetime \<Rightarrow> db \<Rightarrow> (error + string) \<times> db" where
  "check_in booking_id submitted now s =
     (case ObjectId booking_id of
        None \<Rightarrow> (Inl InvalidIdError, s)
      | Some i \<Rightarrow>
          (case find_booking i s of
             None \<Rightarrow> (Inl NotFoundError, s)
           | Some b \<Rightarrow>
               if status b \<noteq> Approved then (Inl InvalidStateError, s)
               else if access_code b \<noteq> Value submitted then (Inl AuthorizationError, s)
               else (Inr ''Check-in recorded'',
                     update_one i (\<lambda>b. b\<lparr>checked_in_at := Value now\<rparr>) s)))"

subsection \<open>No-show sweep\<close>

text \<open>
  \<^verbatim>\<open>datetime.strptime(s, "%Y-%m-%d").date()\<close>: four digits, a dash, a month written
  \<^verbatim>\<open>1[0-2]|0[1-9]|[1-9]\<close>, a dash, a day written
  \<^verbatim>\<open>3[01]|[12]\d|0[1-9]|[1-9]| [1-9]\<close>, and nothing after it.
\<close>

definition nonzero_digit :: "char \<Rightarrow> bool" where
  "nonzero_digit c \<longleftrightarrow> is_digit c \<and> c \<noteq> CHR ''0''"

definition month_form :: "string \<Rightarrow> bool" where
  "month_form s \<longleftrightarrow>
     (case s of
        [a] \<Rightarrow> nonzero_digit a
      | [a, b] \<Rightarrow>
          (a = CHR ''1'' \<and> (b = CHR ''0'' \<or> b = CHR ''1'' \<or> b = CHR ''2''))
          \<or> (a = CHR ''0'' \<and> nonzero_digit b)
      | _ \<Rightarrow> False)"

definition day_form :: "string \<Rightarrow> bool" where
  "day_form s \<longleftrightarrow>
     (case s of
        [a] \<Rightarrow> nonzero_digit a
      | [a, b] \<Rightarrow>
          (a = CHR ''3'' \<and> (b = CHR ''0'' \<or> b = CHR ''1''))
          \<or> ((a = CHR ''1'' \<or> a = CHR ''2'') \<and> is_digit b)
          \<or> (a = CHR ''0'' \<and> nonzero_digit b)
          \<or> (a = CHR '' '' \<and> nonzero_digit b)
      | _ \<Rightarrow> False)"

definition strptime_date :: "string \<Rightarrow> error + pydate" where
  "strptime_date s =
     (case split_on (CHR ''-'') s of
        [ys, ms, ds] \<Rightarrow>
          if length ys = 4 \<and> list_all is_digit ys \<and> month_form ms \<and> day_form ds
          then mk_date (digits_value ys) (digits_value ms) (digits_value ds)
          else Inl ValueError
      | _ \<Rightarrow> Inl ValueError)"

text \<open>
  \<^verbatim>\<open>NO_SHOW_GRACE_MIN\<close> is read from the environment when the module is loaded; it
  is a parameter of the sweep, 15 when the variable is not set.
\<close>

definition NO_SHOW_GRACE_MIN_default :: int where
  "NO_SHOW_GRACE_MIN_default = 15"

text \<open>\<^verbatim>\<open>t + timedelta(minutes=g)\<close>, with the two overflows of the library.\<close>

definition add_timedelta_minutes :: "datetime \<Rightarrow> int \<Rightarrow> error + datetime" where
  "add_timedelta_minutes t g =
     (if g div 1440 < - 999999999 \<or> 999999999 < g div 1440 then Inl OverflowError
      else add_minutes t g)"

text \<open>
  The test of the loop body for one row: \<open>Inr True\<close> when the row is to be marked,
  \<open>Inl\<close> when parsing or the addition raises. Python's \<^verbatim>\<open>and\<close> evaluates the
  addition only when the date is today's or earlier.
\<close>

definition no_show_due :: "pydate \<Rightarrow> datetime \<Rightarrow> int \<Rightarrow> booking \<Rightarrow> error + bool" where
  "no_show_due today now grace b =
     (case strptime_date (date b) of
        Inl x \<Rightarrow> Inl x
      | Inr b_date \<Rightarrow>
          (case to_local_dt (date b) (start_time b) of
             Inl x \<Rightarrow> Inl x
           | Inr start_dt_local \<Rightarrow>
               if b_date \<le> today
               then (case add_timedelta_minutes start_dt_local grace of
                       Inl x \<Rightarrow> Inl x
                     | Inr due \<Rightarrow> Inr (now \<ge> due))
               else Inr False))"

text \<open>
  The loop over the rows read before it starts. An exception leaves the loop with the
  updates made so far in the store.
\<close>

fun sweep_rows ::
  "pydate \<Rightarrow> datetime \<Rightarrow> int \<Rightarrow> booking list \<Rightarrow> nat \<Rightarrow> db \<Rightarrow> (error + nat) \<times> db" where
  "sweep_rows today now grace [] changed s = (Inr changed, s)"
| "sweep_rows today now grace (b # rows) changed s =
     (case no_show_due today now grace b of
        Inl x \<Rightarrow> (Inl x, s)
      | Inr True \<Rightarrow>
          sweep_rows today now grace rows (changed + 1)
            (update_one (doc_id b) (\<lambda>b. b\<lparr>status := No_show\<rparr>) s)
      | Inr False \<Rightarrow> sweep_rows today now grace rows changed s)"

text \<open>
  \<^verbatim>\<open>sweep_noshows\<close>; \<open>today\<close> and \<open>now\<close> are the two readings of the clock.
\<close>

definition sweep_noshows :: "pydate \<Rightarrow> datetime \<Rightarrow> int \<Rightarrow> db \<Rightarrow> (error + nat) \<times> db" where
  "sweep_noshows today now grace s =
     sweep_rows today now grace
       (filter (\<lambda>b. status b = Approved \<and> checked_in_at b = Absent) (booking_coll s)) 0 s"

subsection \<open>Availability\<close>

definition open_t :: string where
  "open_t = ''08:00''"

definition close_t :: string where
  "close_t = ''22:00''"

definition minutes :: "string \<Rightarrow> error + int" where
  "minutes t =
     (case py_ints (split_on (CHR '':'') t) of
        Some [h, m] \<Rightarrow> Inr (h * 60 + m)
      | _ \<Rightarrow> Inl ValueError)"

text \<open>
  \<^verbatim>\<open>for i in range(lo, hi): if 0 <= i < len(covered): covered[i] = 1\<close>
\<close>

definition mark_range :: "int \<Rightarrow> int \<Rightarrow> int list \<Rightarrow> int list" where
  "mark_range lo hi covered =
     fold (\<lambda>i c. if 0 \<le> i \<and> i < int (length c) then c[nat i := 1] else c) [lo..hi - 1] covered"

fun cover :: "booking list \<Rightarrow> int list \<Rightarrow> error + int list" where
  "cover [] covered = Inr covered"
| "cover (b # bs) covered =
     (case minutes (start_time b) of
        Inl x \<Rightarrow> Inl x
      | Inr sm \<Rightarrow>
          (case minutes open_t of
             Inl x \<Rightarrow> Inl x
           | Inr om \<Rightarrow>
               (case minutes (end_time b) of
                  Inl x \<Rightarrow> Inl x
                | Inr em \<Rightarrow>
                    (case minutes close_t of
                       Inl x \<Rightarrow> Inl x
                     | Inr cm \<Rightarrow>
                         cover bs
                           (mark_range (max 0 (max sm om - om)) (max 0 (min em cm - om))
                              covered)))))"

record availability_result =
  r_facility_code :: string
  r_date :: string
  unavailable :: "(string \<times> string \<times> status) list"
  fully_occupied :: bool
  hours :: "string \<times> string"

definition availability :: "string \<Rightarrow> string \<Rightarrow> db \<Rightarrow> error + availability_result" where
  "availability fc date_str s =
     (case find_facility fc s of
        None \<Rightarrow> Inl NotFoundFacility
      | Some fac \<Rightarrow>
          (case minutes close_t of
             Inl x \<Rightarrow> Inl x
           | Inr cm \<Rightarrow>
               (case minutes open_t of
                  Inl x \<Rightarrow> Inl x
                | Inr om \<Rightarrow>
                    (case cover (find_active fc date_str s) (replicate (nat (cm - om)) 0) of
                       Inl x \<Rightarrow> Inl x
                     | Inr covered \<Rightarrow>
                         Inr \<lparr>r_facility_code = fc,
                              r_date = date_str,
                              unavailable =
                                map (\<lambda>b. (start_time b, end_time b, status b))
                                  (find_active fc date_str s),
                              fully_occupied =
                                (covered \<noteq> [] \<and> list_all (\<lambda>x. x \<noteq> 0) covered),
                              hours = (open_t, close_t)\<rparr>))))"

subsection \<open>Sequences of operations\<close>

text \<open>
  The requests the engine serves, each with the inputs it takes from its environment
  (the new document's id, the random bytes, the clock), run one after the other.
\<close>

datatype op =
    OpCreate CreateBooking oid
  | OpAdmin string AdminAction "byte \<times> byte \<times> byte"
  | OpCheckIn string string datetime
  | OpSweep pydate datetime

fun step :: "int \<Rightarrow> db \<Rightarrow> op \<Rightarrow> db" where
  "step grace s (OpCreate p i) = snd (create_booking p i s)"
| "step grace s (OpAdmin booking_id action rnd) = snd (admin_action booking_id action rnd s)"
| "step grace s (OpCheckIn booking_id submitted now) = snd (check_in booking_id submitted now s)"
| "step grace s (OpSweep today now) = snd (sweep_noshows today now grace s)"

definition run :: "int \<Rightarrow> op list \<Rightarrow> db \<Rightarrow> db" where
  "run grace ops s = foldl (step grace) s ops"

subsection \<open>The invariants of the data model\<close>

text \<open>
  Two bookings conflict when they are for the same facility and date, both are pending
  or approved, and their intervals overlap.
\<close>

definition conflict :: "booking \<Rightarrow> booking \<Rightarrow> bool" where
  "conflict a b \<longleftrightarrow>
     facility_code a = facility_code b \<and> date a = date b \<and> active a \<and> active b
     \<and> overlaps (start_time a) (end_time a) (start_time b) (end_time b) = Inr True"

fun I2 :: "booking list \<Rightarrow> bool" where
  "I2 [] = True"
| "I2 (b # bs) = (list_all (\<lambda>c. \<not> conflict b c) bs \<and> I2 bs)"

subsection \<open>A scenario\<close>

text \<open>
  A store with the facility \<^verbatim>\<open>MR-1\<close> and no booking; requests for it on
  2024-06-01; and the store after a booking from 08:00 to 09:00 was created and approved.
\<close>

definition MR1 :: facility where
  "MR1 = \<lparr>fac_id = [1, 2, 3, 4, 5, 6, 7, 8, 9, 10, 11, 12], code = ''MR-1''\<rparr>"

definition seeded_db :: db where
  "seeded_db = \<lparr>facility_coll = [MR1], booking_coll = []\<rparr>"

definition request :: "string \<Rightarrow> string \<Rightarrow> CreateBooking" where
  "request a b =
     \<lparr>p_facility_code = ''MR-1'', p_user_name = ''Aina'', p_user_email = ''aina@example.com'',
      p_purpose = None, p_date = ''2024-06-01'', p_start_time = a, p_end_time = b\<rparr>"

definition oid_A :: oid where
  "oid_A = [0, 0, 0, 0, 0, 0, 0, 0, 0, 0, 0, 10]"

definition oid_B :: oid where
  "oid_B = [0, 0, 0, 0, 0, 0, 0, 0, 0, 0, 0, 11]"

definition id_A :: string where
  "id_A = ''00000000000000000000000a''"

definition id_B :: string where
  "id_B = ''00000000000000000000000b''"

definition booking_A :: "string \<Rightarrow> string \<Rightarrow> booking" where
  "booking_A a b = new_booking (request a b) MR1 oid_A"

definition approved_A :: booking where
  "approved_A = (booking_A ''08:00'' ''09:00'')\<lparr>status := Approved, access_code := Value ''0A1B2C''\<rparr>"

definition approved_db :: db where
  "approved_db =
     run 15 [OpCreate (request ''08:00'' ''09:00'') oid_A, OpAdmin id_A approve (10, 27, 44)]
       seeded_db"

text \<open>
  The same approved booking as a document that has no key \<^verbatim>\<open>checked_in_at\<close>, and
  one whose date is the string \<^verbatim>\<open>tomorrow\<close>.
\<close>

definition keyless_A :: booking where
  "keyless_A = approved_A\<lparr>checked_in_at := Absent\<rparr>"

definition keyless_db :: db where
  "keyless_db = \<lparr>facility_coll = [MR1], booking_coll = [keyless_A]\<rparr>"


text \<open>An instant: the minute \<open>hh:mm\<close> of the day \<open>y-m-d\<close>.\<close>

definition instant :: "int \<Rightarrow> int \<Rightarrow> int \<Rightarrow> int \<Rightarrow> int \<Rightarrow> datetime" where
  "instant y m d hh mm = ymd2ord y m d * usec_per_day + (hh * 60 + mm) * usec_per_minute"

subsection \<open>What a sweep marks\<close>





text \<open>
  A booking is created for 09:00 to 10:00 and rejected; a second booking is created for the
  same slot; then the first one is approved.
\<close>

definition double_booking_ops :: "op list" where
  "double_booking_ops =
     [OpCreate (request ''09:00'' ''10:00'') oid_A,
      OpAdmin id_A reject (0, 0, 0),
      OpCreate (request ''09:00'' ''10:00'') oid_B,
      OpAdmin id_A approve (10, 27, 44)]"

subsection \<open>Access codes and approvals\<close>







subsection \<open>What parses as a time\<close>

text \<open>A time string parses when \<open>to_local_dt\<close> accepts it, as \<open>overlaps\<close> calls it.\<close>

definition parses :: "string \<Rightarrow> bool" where
  "parses t \<longleftrightarrow> (case to_local_dt ''2000-01-01'' t of Inl x \<Rightarrow> False | Inr a \<Rightarrow> True)"

text \<open>
  Scenario A of the specification: the store after a booking from 09:00 to 10:00 was
  created. And a sequence that leaves a booking with the times \<^verbatim>\<open>x\<close> and
  \<^verbatim>\<open>y\<close> approved, before a pending booking from 09:00 to 10:00.
\<close>

definition oid_C :: oid where
  "oid_C = [0, 0, 0, 0, 0, 0, 0, 0, 0, 0, 0, 12]"

definition scenario_A_db :: db where
  "scenario_A_db = run 15 [OpCreate (request ''09:00'' ''10:00'') oid_A] seeded_db"

definition malformed_first_ops :: "op list" where
  "malformed_first_ops =
     [OpCreate (request ''x'' ''y'') oid_A,
      OpAdmin id_A reject (0, 0, 0),
      OpCreate (request ''09:00'' ''10:00'') oid_B,
      OpAdmin id_A approve (10, 27, 44)]"


subsection \<open>Minutes that a booking covers\<close>

text \<open>
  A time string reads when \<open>minutes\<close> accepts it. A booking covers the minute
  \<open>m\<close> of the day when both its times read and \<open>m\<close> lies from its start
  (included) to its end (excluded).
\<close>

definition reads :: "string \<Rightarrow> bool" where
  "reads t \<longleftrightarrow> (case minutes t of Inl x \<Rightarrow> False | Inr m \<Rightarrow> True)"

definition covers :: "booking \<Rightarrow> int \<Rightarrow> bool" where
  "covers b m \<longleftrightarrow>
     (case minutes (start_time b) of
        Inl x \<Rightarrow> False
      | Inr sm \<Rightarrow>
          (case minutes (end_time b) of
             Inl x \<Rightarrow> False
           | Inr em \<Rightarrow> sm \<le> m \<and> m < em))"

text \<open>
  Two bookings that tile the window from 08:00 to 22:00, two that leave the minute 12:00
  free, and a sequence that leaves a booking with unreadable times approved beside a
  pending booking for the whole window.
\<close>

definition booking_B :: "string \<Rightarrow> string \<Rightarrow> booking" where
  "booking_B a b = new_booking (request a b) MR1 oid_B"

definition tiled_db :: db where
  "tiled_db =
     run 15 [OpCreate (request ''08:00'' ''12:00'') oid_A,
             OpCreate (request ''12:00'' ''22:00'') oid_B] seeded_db"

definition gap_db :: db where
  "gap_db =
     run 15 [OpCreate (request ''08:00'' ''12:00'') oid_A,
             OpCreate (request ''12:01'' ''22:00'') oid_B] seeded_db"

definition covered_first_ops :: "op list" where
  "covered_first_ops =
     [OpCreate (request ''x'' ''y'') oid_A,
      OpAdmin id_A reject (0, 0, 0),
      OpCreate (request ''08:00'' ''22:00'') oid_B,
      OpAdmin id_A approve (10, 27, 44)]"

section \<open>Properties\<close>

subsection \<open>Parsing a time of day\<close>

lemma is_digit_facts:
  assumes "is_digit c"
  shows "\<not> py_isspace c" "c \<noteq> CHR '':''" "c \<noteq> CHR ''-''" "c \<noteq> CHR ''+''" "c \<noteq> CHR ''_''"
    "0 \<le> digit_val c" "digit_val c \<le> 9"
  using assms by (auto simp: is_digit_def py_isspace_def digit_val_def)

lemma py_int_two_digits:
  assumes "is_digit a" "is_digit b"
  shows "py_int [a, b] = Some (10 * digit_val a + digit_val b)"
  using assms is_digit_facts[OF assms(1)] is_digit_facts[OF assms(2)]
  by (simp add: py_int_def strip_def digits_value_def)

lemma split_colon_hhmm:
  assumes "is_digit a" "is_digit b" "is_digit d" "is_digit e"
  shows "split_on (CHR '':'') [a, b, CHR '':'', d, e] = [[a, b], [d, e]]"
  using is_digit_facts(2)[OF assms(1)] is_digit_facts(2)[OF assms(2)]
    is_digit_facts(2)[OF assms(3)] is_digit_facts(2)[OF assms(4)]
  by simp

lemma valid_hhmm_cases:
  assumes "valid_hhmm s"
  obtains a b d e where "s = [a, b, CHR '':'', d, e]"
    "is_digit a" "is_digit b" "is_digit d" "is_digit e"
    "10 * digit_val a + digit_val b \<le> 23" "10 * digit_val d + digit_val e \<le> 59"
  using assms unfolding valid_hhmm_def
  by (auto split: list.splits)

lemma py_ints_hhmm:
  assumes "valid_hhmm s"
  obtains hh mm where "py_ints (split_on (CHR '':'') s) = Some [hh, mm]"
    "0 \<le> hh" "hh \<le> 23" "0 \<le> mm" "mm \<le> 59" "hhmm_minutes s = hh * 60 + mm"
proof -
  from assms obtain a b d e where s: "s = [a, b, CHR '':'', d, e]"
    and dg: "is_digit a" "is_digit b" "is_digit d" "is_digit e"
    and rg: "10 * digit_val a + digit_val b \<le> 23" "10 * digit_val d + digit_val e \<le> 59"
    by (rule valid_hhmm_cases)
  have nn: "0 \<le> digit_val a" "0 \<le> digit_val b" "0 \<le> digit_val d" "0 \<le> digit_val e"
    using dg by (simp_all add: is_digit_facts)
  have p: "py_ints (split_on (CHR '':'') s)
      = Some [10 * digit_val a + digit_val b, 10 * digit_val d + digit_val e]"
    unfolding s split_colon_hhmm[OF dg] by (simp add: py_int_two_digits dg)
  have m: "hhmm_minutes s
      = (10 * digit_val a + digit_val b) * 60 + (10 * digit_val d + digit_val e)"
    by (simp add: hhmm_minutes_def s)
  have lo: "0 \<le> 10 * digit_val a + digit_val b" "0 \<le> 10 * digit_val d + digit_val e"
    using nn by simp_all
  show ?thesis
    by (rule that[OF p lo(1) rg(1) lo(2) rg(2) m])
qed

lemma date_2000: "py_ints (split_on (CHR ''-'') ''2000-01-01'') = Some [2000, 1, 1]"
  by code_simp

lemma to_local_dt_hhmm:
  assumes "valid_hhmm s"
  shows "to_local_dt ''2000-01-01'' s
    = Inr (730120 * usec_per_day + hhmm_minutes s * usec_per_minute)"
proof -
  from assms obtain hh mm where t: "py_ints (split_on (CHR '':'') s) = Some [hh, mm]"
    and rg: "0 \<le> hh" "hh \<le> 23" "0 \<le> mm" "mm \<le> 59" and m: "hhmm_minutes s = hh * 60 + mm"
    by (rule py_ints_hhmm)
  have "mk_datetime 2000 1 1 hh mm
      = Inr (730120 * usec_per_day + hhmm_minutes s * usec_per_minute)"
    using rg by (simp add: mk_datetime_def c_int_def days_in_month_def ymd2ord_def
        days_before_year_def days_before_month_def is_leap_def m)
  then show ?thesis
    unfolding to_local_dt_def date_2000 t by simp
qed

lemma overlaps_hhmm:
  assumes "valid_hhmm s1" "valid_hhmm e1" "valid_hhmm s2" "valid_hhmm e2"
  shows "overlaps s1 e1 s2 e2
    = Inr (hhmm_minutes s1 < hhmm_minutes e2 \<and> hhmm_minutes s2 < hhmm_minutes e1)"
  unfolding overlaps_def using assms by (simp add: to_local_dt_hhmm usec_per_minute_def)

subsection \<open>The overlap predicate\<close>

text \<open>
  C3. On valid \<^verbatim>\<open>HH:MM\<close> strings \<open>overlaps\<close> returns, without raising, whether
  \<open>s1 < e2\<close> and \<open>s2 < e1\<close> as minutes of the day (the half-open intervals meet);
  it gives the same answer with the two intervals exchanged; and it is false for two
  adjacent intervals, the one ending when the other starts.
\<close>

theorem overlaps_half_open:
  assumes "valid_hhmm s1" "valid_hhmm e1" "valid_hhmm s2" "valid_hhmm e2"
  shows "overlaps s1 e1 s2 e2
           = Inr (hhmm_minutes s1 < hhmm_minutes e2 \<and> hhmm_minutes s2 < hhmm_minutes e1)
         \<and> overlaps s1 e1 s2 e2 = overlaps s2 e2 s1 e1
         \<and> overlaps s1 e1 e1 e2 = Inr False
         \<and> overlaps s1 e1 s2 s1 = Inr False"
proof -
  have "overlaps s2 e2 s1 e1
      = Inr (hhmm_minutes s2 < hhmm_minutes e1 \<and> hhmm_minutes s1 < hhmm_minutes e2)"
    using assms by (simp add: overlaps_hhmm)
  moreover have "overlaps s1 e1 e1 e2 = Inr False" "overlaps s1 e1 s2 s1 = Inr False"
    using assms by (simp_all add: overlaps_hhmm)
  ultimately show ?thesis
    using assms by (auto simp: overlaps_hhmm)
qed

theorem overlaps_half_open_witness:
  "valid_hhmm ''09:00'' \<and> valid_hhmm ''10:00'' \<and> valid_hhmm ''09:30'' \<and> valid_hhmm ''10:30''
   \<and> overlaps ''09:00'' ''10:00'' ''09:30'' ''10:30'' = Inr True
   \<and> overlaps ''09:30'' ''10:30'' ''09:00'' ''10:00'' = Inr True
   \<and> overlaps ''09:00'' ''10:00'' ''10:00'' ''10:30'' = Inr False"
proof -
  have v: "valid_hhmm ''09:00''" "valid_hhmm ''10:00''" "valid_hhmm ''09:30''"
    "valid_hhmm ''10:30''"
    by (simp_all add: valid_hhmm_def is_digit_def digit_val_def)
  have m: "hhmm_minutes ''09:00'' = 540" "hhmm_minutes ''10:00'' = 600"
    "hhmm_minutes ''09:30'' = 570" "hhmm_minutes ''10:30'' = 630"
    by (simp_all add: hhmm_minutes_def digit_val_def)
  have a: "overlaps ''09:00'' ''10:00'' ''09:30'' ''10:30'' = Inr True"
    using overlaps_half_open[OF v(1) v(2) v(3) v(4)] by (simp add: m)
  have b: "overlaps ''09:30'' ''10:30'' ''09:00'' ''10:00'' = Inr True"
    using overlaps_half_open[OF v(3) v(4) v(1) v(2)] by (simp add: m)
  have c: "overlaps ''09:00'' ''10:00'' ''10:00'' ''10:30'' = Inr False"
    using overlaps_half_open[OF v(1) v(2) v(2) v(4)] by (simp add: m)
  show ?thesis
    using v a b c by simp
qed

subsection \<open>The store under an update\<close>

lemma find_update_first:
  assumes "find (\<lambda>b. doc_id b = i) bs = Some b" "doc_id (f b) = i"
  shows "find (\<lambda>b. doc_id b = i) (update_first i f bs) = Some (f b)"
  using assms by (induction bs) (auto split: if_splits)

lemma find_booking_update_one:
  assumes "find_booking i s = Some b" "doc_id (f b) = i"
  shows "find_booking i (update_one i f s) = Some (f b)"
  using assms by (simp add: find_booking_def update_one_def find_update_first)

lemma find_booking_doc_id: "find_booking i s = Some b \<Longrightarrow> doc_id b = i"
  by (auto simp: find_booking_def dest: find_Some_iff[THEN iffD1])

lemma length_update_first [simp]: "length (update_first i f bs) = length bs"
  by (induction bs) auto

lemma map_update_first:
  assumes "\<And>b. g (f b) = g b"
  shows "map g (update_first i f bs) = map g bs"
  using assms by (induction bs) auto

lemma approved_db_eq: "approved_db = \<lparr>facility_coll = [MR1], booking_coll = [approved_A]\<rparr>"
  by code_simp

lemma ObjectId_id_A: "ObjectId id_A = Some oid_A"
  by code_simp

lemma find_approved_A: "find_booking oid_A approved_db = Some approved_A"
  by code_simp

subsection \<open>Check-in\<close>

text \<open>
  C10. Check-in makes no test on the time. For a booking that is approved and whose stored
  access code is the submitted one, check-in succeeds and records the current time as
  \<open>checked_in_at\<close>, whatever the current time \<open>now\<close> is: the theorem holds for every
  value of \<open>now\<close>, before the booking's date as well as long after its end.
\<close>

theorem check_in_no_temporal_check:
  assumes "ObjectId booking_id = Some i" "find_booking i s = Some b"
    "status b = Approved" "access_code b = Value submitted"
  shows "check_in booking_id submitted now s
           = (Inr ''Check-in recorded'', update_one i (\<lambda>b. b\<lparr>checked_in_at := Value now\<rparr>) s)
         \<and> find_booking i (snd (check_in booking_id submitted now s))
           = Some (b\<lparr>checked_in_at := Value now\<rparr>)"
proof -
  have r: "check_in booking_id submitted now s
      = (Inr ''Check-in recorded'', update_one i (\<lambda>b. b\<lparr>checked_in_at := Value now\<rparr>) s)"
    using assms by (simp add: check_in_def)
  have "doc_id (b\<lparr>checked_in_at := Value now\<rparr>) = i"
    using find_booking_doc_id[OF assms(2)] by simp
  then have "find_booking i (update_one i (\<lambda>b. b\<lparr>checked_in_at := Value now\<rparr>) s)
      = Some (b\<lparr>checked_in_at := Value now\<rparr>)"
    by (rule find_booking_update_one[OF assms(2)])
  with r show ?thesis by simp
qed

theorem check_in_no_temporal_check_witness:
  "ObjectId id_A = Some oid_A \<and> find_booking oid_A approved_db = Some approved_A
   \<and> status approved_A = Approved \<and> access_code approved_A = Value ''0A1B2C''
   \<and> date approved_A = ''2024-06-01'' \<and> end_time approved_A = ''09:00''
   \<and> find_booking oid_A (snd (check_in id_A ''0A1B2C'' (instant 2020 1 1 0 0) approved_db))
       = Some (approved_A\<lparr>checked_in_at := Value (instant 2020 1 1 0 0)\<rparr>)
   \<and> find_booking oid_A (snd (check_in id_A ''0A1B2C'' (instant 2030 12 31 23 59) approved_db))
       = Some (approved_A\<lparr>checked_in_at := Value (instant 2030 12 31 23 59)\<rparr>)"
proof -
  have st: "status approved_A = Approved" and ac: "access_code approved_A = Value ''0A1B2C''"
    and dt: "date approved_A = ''2024-06-01''" and en: "end_time approved_A = ''09:00''"
    by (simp_all add: approved_A_def booking_A_def new_booking_def request_def)
  note w = check_in_no_temporal_check[OF ObjectId_id_A find_approved_A st ac]
  show ?thesis
    using w[of "instant 2020 1 1 0 0", THEN conjunct2]
      w[of "instant 2030 12 31 23 59", THEN conjunct2]
      ObjectId_id_A find_approved_A st ac dt en
    by simp
qed

lemma create_booking_coll:
  "booking_coll (snd (create_booking p j s)) = booking_coll s
   \<or> (\<exists>fac. booking_coll (snd (create_booking p j s)) = booking_coll s @ [new_booking p fac j])"
  by (auto simp: create_booking_def create_document_def split: option.splits sum.splits)

lemma create_keeps_checked_in_at:
  "take (length (booking_coll s)) (map checked_in_at (booking_coll (snd (create_booking p j s))))
    = map checked_in_at (booking_coll s)"
  using create_booking_coll[of p j s] by auto

lemma admin_keeps_checked_in_at:
  "map checked_in_at (booking_coll (snd (admin_action booking_id action rnd s)))
    = map checked_in_at (booking_coll s)"
  by (auto simp: admin_action_def update_one_def map_update_first split: option.splits)

lemma sweep_rows_keeps_checked_in_at:
  "map checked_in_at (booking_coll (snd (sweep_rows today now grace rows c s)))
    = map checked_in_at (booking_coll s)"
  by (induction rows arbitrary: c s)
     (auto simp: update_one_def map_update_first split: sum.splits bool.splits)

lemma sweep_keeps_checked_in_at:
  "map checked_in_at (booking_coll (snd (sweep_noshows today now grace s)))
    = map checked_in_at (booking_coll s)"
  by (simp add: sweep_noshows_def sweep_rows_keeps_checked_in_at)

lemma check_in_error_unchanged:
  "fst (check_in booking_id submitted now s) = Inl e
    \<Longrightarrow> snd (check_in booking_id submitted now s) = s"
  by (auto simp: check_in_def split: option.splits if_splits)

lemma check_in_wrong_code:
  assumes "ObjectId booking_id = Some i" "find_booking i s = Some b"
    "status b = Approved" "access_code b \<noteq> Value submitted"
  shows "check_in booking_id submitted now s = (Inl AuthorizationError, s)"
  using assms by (simp add: check_in_def)

lemma check_in_right_code:
  assumes "ObjectId booking_id = Some i" "find_booking i s = Some b"
    "status b = Approved" "access_code b = Value submitted"
  shows "find_booking i (snd (check_in booking_id submitted now s))
    = Some (b\<lparr>checked_in_at := Value now\<rparr>)"
proof -
  have "doc_id (b\<lparr>checked_in_at := Value now\<rparr>) = i"
    using find_booking_doc_id[OF assms(2)] by simp
  then have "find_booking i (update_one i (\<lambda>b. b\<lparr>checked_in_at := Value now\<rparr>) s)
      = Some (b\<lparr>checked_in_at := Value now\<rparr>)"
    by (rule find_booking_update_one[OF assms(2)])
  then show ?thesis
    using assms by (simp add: check_in_def)
qed

text \<open>
  C5, as the claim states it, fails: after a check-in at 08:05, a second check-in with the
  same, correct code at 08:40 succeeds and replaces the recorded time by the later one.
\<close>

theorem check_in_twice_counterexample:
  "map checked_in_at
     (booking_coll (snd (check_in id_A ''0A1B2C'' (instant 2024 6 1 8 5) approved_db)))
     = [Value (instant 2024 6 1 8 5)]
   \<and> check_in id_A ''0A1B2C'' (instant 2024 6 1 8 40)
       (snd (check_in id_A ''0A1B2C'' (instant 2024 6 1 8 5) approved_db))
     = (Inr ''Check-in recorded'',
        \<lparr>facility_coll = [MR1],
         booking_coll = [approved_A\<lparr>checked_in_at := Value (instant 2024 6 1 8 40)\<rparr>]\<rparr>)
   \<and> instant 2024 6 1 8 5 < instant 2024 6 1 8 40"
  by code_simp

text \<open>
  C5, amended. A check-in that fails leaves the store as it was, and on an approved
  booking a wrong code fails with \<open>AuthorizationError\<close>. A check-in with the right
  code on an approved booking records the time of that call, also when a time was recorded
  before. No other operation changes the \<open>checked_in_at\<close> of a stored booking:
  creating a booking, an admin action and the sweep leave all of them as they are.
\<close>

theorem checked_in_at_written_by_check_in:
  "(\<forall>e. fst (check_in booking_id submitted now s) = Inl e
        \<longrightarrow> snd (check_in booking_id submitted now s) = s)
   \<and> (ObjectId booking_id = Some i \<and> find_booking i s = Some b \<and> status b = Approved
        \<and> access_code b \<noteq> Value submitted
        \<longrightarrow> check_in booking_id submitted now s = (Inl AuthorizationError, s))
   \<and> (ObjectId booking_id = Some i \<and> find_booking i s = Some b \<and> status b = Approved
        \<and> access_code b = Value submitted
        \<longrightarrow> find_booking i (snd (check_in booking_id submitted now s))
              = Some (b\<lparr>checked_in_at := Value now\<rparr>))
   \<and> take (length (booking_coll s))
        (map checked_in_at (booking_coll (snd (create_booking p j s))))
       = map checked_in_at (booking_coll s)
   \<and> map checked_in_at (booking_coll (snd (admin_action booking_id action rnd s)))
       = map checked_in_at (booking_coll s)
   \<and> map checked_in_at (booking_coll (snd (sweep_noshows today now grace s)))
       = map checked_in_at (booking_coll s)"
  using check_in_error_unchanged[of booking_id submitted now s]
    check_in_wrong_code[of booking_id i s b submitted now]
    check_in_right_code[of booking_id i s b submitted now]
    create_keeps_checked_in_at[of s p j] admin_keeps_checked_in_at[of booking_id action rnd s]
    sweep_keeps_checked_in_at[of today now grace s]
  by blast

theorem checked_in_at_written_by_check_in_witness:
  "ObjectId id_A = Some oid_A \<and> find_booking oid_A approved_db = Some approved_A
   \<and> status approved_A = Approved \<and> access_code approved_A = Value ''0A1B2C''
   \<and> ''FFFFFF'' \<noteq> ''0A1B2C''
   \<and> check_in id_A ''FFFFFF'' (instant 2024 6 1 8 5) approved_db
       = (Inl AuthorizationError, approved_db)
   \<and> find_booking oid_A (snd (check_in id_A ''0A1B2C'' (instant 2024 6 1 8 5) approved_db))
       = Some (approved_A\<lparr>checked_in_at := Value (instant 2024 6 1 8 5)\<rparr>)
   \<and> map checked_in_at (booking_coll (snd (admin_action id_A reject (0, 0, 0) approved_db)))
       = [Null]"
proof -
  have st: "status approved_A = Approved" and ac: "access_code approved_A = Value ''0A1B2C''"
    and ci: "checked_in_at approved_A = Null"
    by (simp_all add: approved_A_def booking_A_def new_booking_def request_def)
  have ne: "access_code approved_A \<noteq> Value ''FFFFFF''"
    by (simp add: ac)
  note w1 = checked_in_at_written_by_check_in[of id_A "''FFFFFF''" "instant 2024 6 1 8 5"
      approved_db oid_A approved_A "request ''10:00'' ''11:00''" oid_B reject "(0, 0, 0)" 739038 15]
  note w2 = checked_in_at_written_by_check_in[of id_A "''0A1B2C''" "instant 2024 6 1 8 5"
      approved_db oid_A approved_A "request ''10:00'' ''11:00''" oid_B reject "(0, 0, 0)" 739038 15]
  have a: "check_in id_A ''FFFFFF'' (instant 2024 6 1 8 5) approved_db
      = (Inl AuthorizationError, approved_db)"
    using w1 ObjectId_id_A find_approved_A st ne by blast
  have b: "find_booking oid_A (snd (check_in id_A ''0A1B2C'' (instant 2024 6 1 8 5) approved_db))
      = Some (approved_A\<lparr>checked_in_at := Value (instant 2024 6 1 8 5)\<rparr>)"
    using w2 ObjectId_id_A find_approved_A st ac by blast
  have c: "map checked_in_at (booking_coll (snd (admin_action id_A reject (0, 0, 0) approved_db)))
      = map checked_in_at (booking_coll approved_db)"
    using w1 by blast
  show ?thesis
    using a b c ObjectId_id_A find_approved_A st ac ci by (simp add: approved_db_eq)
qed

subsection \<open>The sweep\<close>













subsection \<open>Invariant I2\<close>

text \<open>
  C1. The code breaks the invariant. After a booking was created and rejected, a second
  booking created for the same slot, and the first one approved, the store holds two
  bookings for the same facility, date and interval, the one approved and the other
  pending: I2 held before the approval and does not hold after it.
\<close>

theorem reapproval_breaks_I2:
  "I2 (booking_coll seeded_db)
   \<and> I2 (booking_coll (run 15 (take 3 double_booking_ops) seeded_db))
   \<and> map (\<lambda>b. (facility_code b, date b, start_time b, end_time b, status b))
        (booking_coll (run 15 double_booking_ops seeded_db))
      = [(''MR-1'', ''2024-06-01'', ''09:00'', ''10:00'', Approved),
         (''MR-1'', ''2024-06-01'', ''09:00'', ''10:00'', Pending)]
   \<and> \<not> I2 (booking_coll (run 15 double_booking_ops seeded_db))"
  by code_simp

subsection \<open>What the sweep selects\<close>

text \<open>
  C4. The code does not mark the bookings the claim names. A booking for 08:00, created by
  \<open>create_booking\<close> and approved, holds the key \<^verbatim>\<open>checked_in_at\<close> with the
  value null; the query of the sweep asks for documents without the key, so at 08:16 on
  the day, with a grace of 15 minutes, the sweep selects nothing, returns 0 and leaves
  the booking approved. The same booking stored without the key is marked.
\<close>

theorem sweep_skips_created_booking:
  "map (\<lambda>b. (date b, start_time b, status b, checked_in_at b)) (booking_coll approved_db)
     = [(''2024-06-01'', ''08:00'', Approved, Null)]
   \<and> sweep_noshows (ymd2ord 2024 6 1) (instant 2024 6 1 8 16) NO_SHOW_GRACE_MIN_default
       approved_db = (Inr 0, approved_db)
   \<and> sweep_noshows (ymd2ord 2024 6 1) (instant 2024 6 1 8 16) NO_SHOW_GRACE_MIN_default
       keyless_db
       = (Inr 1, \<lparr>facility_coll = [MR1], booking_coll = [keyless_A\<lparr>status := No_show\<rparr>]\<rparr>)"
  by code_simp

subsection \<open>Invariant I3\<close>

lemma doc_id_new_booking [simp]: "doc_id (new_booking p fac j) = j"
  by (simp add: new_booking_def)















subsection \<open>The conflict guard\<close>

lemma mk_datetime_error: "mk_datetime y m d hh mm = Inl x \<Longrightarrow> x = ValueError \<or> x = OverflowError"
  by (auto simp: mk_datetime_def split: if_splits)

lemma to_local_dt_error: "to_local_dt d t = Inl x \<Longrightarrow> x = ValueError \<or> x = OverflowError"
  by (auto simp: to_local_dt_def split: option.splits list.splits dest: mk_datetime_error)

lemma overlaps_error: "overlaps s e s2 e2 = Inl x \<Longrightarrow> x = ValueError \<or> x = OverflowError"
  by (auto simp: overlaps_def split: sum.splits dest: to_local_dt_error)

lemma overlaps_Inl_payload:
  assumes "overlaps s e s2 e2 = Inl x" "parses s2" "parses e2"
  shows "overlaps s e s3 e3 \<noteq> Inr r"
  using assms by (auto simp: overlaps_def parses_def split: sum.splits)

lemma overlaps_parses:
  assumes "parses s" "parses e" "parses s2" "parses e2"
  shows "\<exists>r. overlaps s e s2 e2 = Inr r"
  using assms by (auto simp: overlaps_def parses_def split: sum.splits)

lemma check_overlaps_conflict:
  assumes "\<forall>b\<in>set bs. parses (start_time b) \<and> parses (end_time b)"
  shows "check_overlaps s e bs = Inl ConflictError
    \<longleftrightarrow> (\<exists>b\<in>set bs. overlaps s e (start_time b) (end_time b) = Inr True)"
  using assms
proof (induction bs)
  case Nil
  then show ?case by simp
next
  case (Cons b bs)
  have pb: "parses (start_time b)" "parses (end_time b)"
    using Cons.prems by simp_all
  have ih: "check_overlaps s e bs = Inl ConflictError
      \<longleftrightarrow> (\<exists>b\<in>set bs. overlaps s e (start_time b) (end_time b) = Inr True)"
    using Cons by simp
  show ?case
  proof (cases "overlaps s e (start_time b) (end_time b)")
    case (Inl x)
    have "x \<noteq> ConflictError"
      using overlaps_error[OF Inl] by auto
    moreover have "\<forall>c\<in>set bs. overlaps s e (start_time c) (end_time c) \<noteq> Inr True"
      using overlaps_Inl_payload[OF Inl pb] by blast
    ultimately show ?thesis
      using Inl by simp
  next
    case (Inr r)
    then show ?thesis
      using ih by (cases r) simp_all
  qed
qed

lemma check_overlaps_free:
  assumes "\<forall>b\<in>set bs. parses (start_time b) \<and> parses (end_time b)"
    and "bs = [] \<or> parses s \<and> parses e"
    and "\<forall>b\<in>set bs. overlaps s e (start_time b) (end_time b) \<noteq> Inr True"
  shows "check_overlaps s e bs = Inr ()"
  using assms
proof (induction bs)
  case Nil
  then show ?case by simp
next
  case (Cons b bs)
  have p: "parses s" "parses e" "parses (start_time b)" "parses (end_time b)"
    using Cons.prems by simp_all
  obtain r where r: "overlaps s e (start_time b) (end_time b) = Inr r"
    using overlaps_parses[OF p] by blast
  have "\<not> r" using Cons.prems(3) r by auto
  moreover have "check_overlaps s e bs = Inr ()"
    using Cons p by (cases bs) simp_all
  ultimately show ?case using r by simp
qed

lemma digit_char_order:
  assumes "is_digit a" "is_digit b"
  shows "a < b \<longleftrightarrow> digit_val a < digit_val b" "a = b \<longleftrightarrow> digit_val a = digit_val b"
  using assms by (auto simp: is_digit_def digit_val_def less_char_def)

lemma hhmm_order:
  assumes "valid_hhmm s" "valid_hhmm t"
  shows "s < t \<longleftrightarrow> hhmm_minutes s < hhmm_minutes t"
proof -
  from assms(1) obtain a b d e where s: "s = [a, b, CHR '':'', d, e]"
    and ds: "is_digit a" "is_digit b" "is_digit d" "is_digit e"
    and rs: "10 * digit_val d + digit_val e \<le> 59"
    by (rule valid_hhmm_cases)
  from assms(2) obtain a' b' d' e' where t: "t = [a', b', CHR '':'', d', e']"
    and dt: "is_digit a'" "is_digit b'" "is_digit d'" "is_digit e'"
    and rt: "10 * digit_val d' + digit_val e' \<le> 59"
    by (rule valid_hhmm_cases)
  note bs = is_digit_facts(6,7)[OF ds(1)] is_digit_facts(6,7)[OF ds(2)]
    is_digit_facts(6,7)[OF ds(3)] is_digit_facts(6,7)[OF ds(4)]
    is_digit_facts(6,7)[OF dt(1)] is_digit_facts(6,7)[OF dt(2)]
    is_digit_facts(6,7)[OF dt(3)] is_digit_facts(6,7)[OF dt(4)]
  show ?thesis
    unfolding s t hhmm_minutes_def
    using bs rs rt
    by (simp add: digit_char_order ds dt) arith
qed

lemma create_booking_invalid_range:
  assumes "find_facility (p_facility_code p) s = Some fac" "p_end_time p \<le> p_start_time p"
  shows "create_booking p i s = (Inl ValidationError, s)"
  using assms by (simp add: create_booking_def)

lemma create_booking_conflict:
  assumes "find_facility (p_facility_code p) s = Some fac" "p_start_time p < p_end_time p"
    and "\<forall>b\<in>set (find_active (p_facility_code p) (p_date p) s).
          parses (start_time b) \<and> parses (end_time b)"
  shows "fst (create_booking p i s) = Inl ConflictError
    \<longleftrightarrow> (\<exists>b\<in>set (find_active (p_facility_code p) (p_date p) s).
          overlaps (p_start_time p) (p_end_time p) (start_time b) (end_time b) = Inr True)"
proof -
  have nle: "\<not> p_end_time p \<le> p_start_time p"
    using assms(2) by simp
  have "fst (create_booking p i s) = Inl ConflictError
      \<longleftrightarrow> check_overlaps (p_start_time p) (p_end_time p)
            (find_active (p_facility_code p) (p_date p) s) = Inl ConflictError"
    using assms(1) nle
    by (auto simp: create_booking_def create_document_def split: sum.splits)
  then show ?thesis
    using check_overlaps_conflict[OF assms(3)] by simp
qed

lemma create_booking_failure:
  "fst (create_booking p i s) = Inl e \<Longrightarrow> snd (create_booking p i s) = s"
  by (auto simp: create_booking_def split: option.splits sum.splits if_splits)

lemma create_booking_success:
  assumes "find_facility (p_facility_code p) s = Some fac" "fst (create_booking p i s) = Inr r"
  shows "snd (create_booking p i s) = s\<lparr>booking_coll := booking_coll s @ [new_booking p fac i]\<rparr>"
  using assms
  by (auto simp: create_booking_def create_document_def split: sum.splits if_splits)

lemma create_booking_admits:
  assumes "find_facility (p_facility_code p) s = Some fac" "p_start_time p < p_end_time p"
    and "check_overlaps (p_start_time p) (p_end_time p)
          (find_active (p_facility_code p) (p_date p) s) = Inr ()"
    and "i \<notin> doc_id ` set (booking_coll s)"
  shows "create_booking p i s
    = (Inr (oid_str i), s\<lparr>booking_coll := booking_coll s @ [new_booking p fac i]\<rparr>)"
proof -
  have nle: "\<not> p_end_time p \<le> p_start_time p"
    using assms(2) by simp
  show ?thesis
    using assms(1,3,4) nle by (simp add: create_booking_def create_document_def)
qed

lemma request_fields:
  "p_facility_code (request a b) = ''MR-1''" "p_date (request a b) = ''2024-06-01''"
  "p_start_time (request a b) = a" "p_end_time (request a b) = b"
  by (simp_all add: request_def)

text \<open>
  C2, as the claim states it, fails. Once a booking whose times do not parse is pending or
  approved, \<open>overlaps\<close> raises on it: a request for 09:30 to 10:30 fails with an
  unhandled \<open>ValueError\<close>, not with \<open>ConflictError\<close>, although the pending
  booking from 09:00 to 10:00 overlaps it. And the test of the range compares the two
  times as strings: a request from 10:00 to 9:00 passes it and is stored.
\<close>

theorem create_booking_counterexample:
  "map (\<lambda>b. (start_time b, end_time b, status b))
      (find_active ''MR-1'' ''2024-06-01'' (run 15 malformed_first_ops seeded_db))
     = [(''x'', ''y'', Approved), (''09:00'', ''10:00'', Pending)]
   \<and> ''09:30'' < ''10:30''
   \<and> overlaps ''09:30'' ''10:30'' ''09:00'' ''10:00'' = Inr True
   \<and> create_booking (request ''09:30'' ''10:30'') oid_C (run 15 malformed_first_ops seeded_db)
       = (Inl ValueError, run 15 malformed_first_ops seeded_db)
   \<and> ''10:00'' < ''9:00''
   \<and> fst (create_booking (request ''10:00'' ''9:00'') oid_A seeded_db) = Inr id_A
   \<and> map (\<lambda>b. (start_time b, end_time b, status b))
        (booking_coll (snd (create_booking (request ''10:00'' ''9:00'') oid_A seeded_db)))
       = [(''10:00'', ''9:00'', Pending)]"
  by code_simp

text \<open>
  C2, amended. For a request on an existing facility, where the times of the pending and
  approved bookings for the same facility and date parse: if \<open>start_time \<ge> end_time\<close>
  as strings, the request fails with \<open>ValidationError\<close>, whatever the bookings are;
  otherwise it fails with \<open>ConflictError\<close> if and only if one of those bookings
  overlaps it under \<open>overlaps\<close>. Every failure leaves the store as it was; a success
  appends the new booking, with status pending. The request succeeds when its range is
  in order, no booking overlaps it, its own times parse (or there is no booking to
  compare with) and the id is new. On valid \<^verbatim>\<open>HH:MM\<close> strings the order of the
  strings is the order of the times.
\<close>

theorem create_booking_contract:
  assumes "find_facility (p_facility_code p) s = Some fac"
    and "\<forall>b\<in>set (find_active (p_facility_code p) (p_date p) s).
          parses (start_time b) \<and> parses (end_time b)"
  shows "(p_start_time p \<ge> p_end_time p \<longrightarrow> create_booking p i s = (Inl ValidationError, s))
    \<and> (p_start_time p < p_end_time p \<longrightarrow>
         (fst (create_booking p i s) = Inl ConflictError
          \<longleftrightarrow> (\<exists>b\<in>set (find_active (p_facility_code p) (p_date p) s).
                overlaps (p_start_time p) (p_end_time p) (start_time b) (end_time b)
                  = Inr True)))
    \<and> (\<forall>e. fst (create_booking p i s) = Inl e \<longrightarrow> snd (create_booking p i s) = s)
    \<and> (\<forall>r. fst (create_booking p i s) = Inr r \<longrightarrow>
           snd (create_booking p i s)
             = s\<lparr>booking_coll := booking_coll s @ [new_booking p fac i]\<rparr>
           \<and> status (new_booking p fac i) = Pending)
    \<and> (p_start_time p < p_end_time p
         \<and> (find_active (p_facility_code p) (p_date p) s = []
              \<or> parses (p_start_time p) \<and> parses (p_end_time p))
         \<and> (\<forall>b\<in>set (find_active (p_facility_code p) (p_date p) s).
               overlaps (p_start_time p) (p_end_time p) (start_time b) (end_time b)
                 \<noteq> Inr True)
         \<and> i \<notin> doc_id ` set (booking_coll s)
         \<longrightarrow> fst (create_booking p i s) = Inr (oid_str i))
    \<and> (valid_hhmm (p_start_time p) \<and> valid_hhmm (p_end_time p) \<longrightarrow>
         (p_start_time p \<ge> p_end_time p
          \<longleftrightarrow> hhmm_minutes (p_start_time p) \<ge> hhmm_minutes (p_end_time p)))"
proof (intro conjI impI allI)
  assume "p_end_time p \<le> p_start_time p"
  then show "create_booking p i s = (Inl ValidationError, s)"
    by (rule create_booking_invalid_range[OF assms(1)])
next
  assume "p_start_time p < p_end_time p"
  then show "fst (create_booking p i s) = Inl ConflictError
      \<longleftrightarrow> (\<exists>b\<in>set (find_active (p_facility_code p) (p_date p) s).
            overlaps (p_start_time p) (p_end_time p) (start_time b) (end_time b) = Inr True)"
    using assms(2) by (intro create_booking_conflict[OF assms(1)])
next
  fix e assume "fst (create_booking p i s) = Inl e"
  then show "snd (create_booking p i s) = s"
    by (rule create_booking_failure)
next
  fix r assume "fst (create_booking p i s) = Inr r"
  then show "snd (create_booking p i s)
      = s\<lparr>booking_coll := booking_coll s @ [new_booking p fac i]\<rparr>"
    by (rule create_booking_success[OF assms(1)])
next
  fix r show "status (new_booking p fac i) = Pending"
    by (simp add: new_booking_def)
next
  assume a: "p_start_time p < p_end_time p
      \<and> (find_active (p_facility_code p) (p_date p) s = []
           \<or> parses (p_start_time p) \<and> parses (p_end_time p))
      \<and> (\<forall>b\<in>set (find_active (p_facility_code p) (p_date p) s).
            overlaps (p_start_time p) (p_end_time p) (start_time b) (end_time b) \<noteq> Inr True)
      \<and> i \<notin> doc_id ` set (booking_coll s)"
  then have "check_overlaps (p_start_time p) (p_end_time p)
      (find_active (p_facility_code p) (p_date p) s) = Inr ()"
    using check_overlaps_free[OF assms(2)] by blast
  then show "fst (create_booking p i s) = Inr (oid_str i)"
    using create_booking_admits[OF assms(1)] a by simp
next
  assume "valid_hhmm (p_start_time p) \<and> valid_hhmm (p_end_time p)"
  then have "p_start_time p < p_end_time p
      \<longleftrightarrow> hhmm_minutes (p_start_time p) < hhmm_minutes (p_end_time p)"
    by (simp add: hhmm_order)
  then show "p_end_time p \<le> p_start_time p
      \<longleftrightarrow> hhmm_minutes (p_end_time p) \<le> hhmm_minutes (p_start_time p)"
    by auto
qed

theorem create_booking_contract_witness:
  "find_facility ''MR-1'' scenario_A_db = Some MR1
   \<and> list_all (\<lambda>b. parses (start_time b) \<and> parses (end_time b))
        (find_active ''MR-1'' ''2024-06-01'' scenario_A_db)
   \<and> map (\<lambda>b. (start_time b, end_time b, status b)) (booking_coll scenario_A_db)
       = [(''09:00'', ''10:00'', Pending)]
   \<and> ''09:30'' < ''10:30''
   \<and> fst (create_booking (request ''09:30'' ''10:30'') oid_B scenario_A_db) = Inl ConflictError
   \<and> snd (create_booking (request ''09:30'' ''10:30'') oid_B scenario_A_db) = scenario_A_db
   \<and> ''10:00'' < ''11:00''
   \<and> fst (create_booking (request ''10:00'' ''11:00'') oid_B scenario_A_db) = Inr id_B
   \<and> ''09:00'' \<ge> ''09:00''
   \<and> create_booking (request ''09:00'' ''09:00'') oid_B scenario_A_db
       = (Inl ValidationError, scenario_A_db)"
proof -
  have f: "find_facility ''MR-1'' scenario_A_db = Some MR1"
    by code_simp
  have wl: "list_all (\<lambda>b. parses (start_time b) \<and> parses (end_time b))
      (find_active ''MR-1'' ''2024-06-01'' scenario_A_db)"
    by code_simp
  then have wf: "\<forall>b\<in>set (find_active ''MR-1'' ''2024-06-01'' scenario_A_db).
      parses (start_time b) \<and> parses (end_time b)"
    by (simp add: list_all_iff)
  have st: "map (\<lambda>b. (start_time b, end_time b, status b)) (booking_coll scenario_A_db)
      = [(''09:00'', ''10:00'', Pending)]"
    by code_simp
  have lt: "''09:30'' < ''10:30''" "''10:00'' < ''11:00''" "''09:00'' \<ge> ''09:00''"
    by simp_all
  have ov: "list_ex (\<lambda>b. overlaps ''09:30'' ''10:30'' (start_time b) (end_time b) = Inr True)
      (find_active ''MR-1'' ''2024-06-01'' scenario_A_db)"
    by code_simp
  have nov: "list_all (\<lambda>b. overlaps ''10:00'' ''11:00'' (start_time b) (end_time b) \<noteq> Inr True)
      (find_active ''MR-1'' ''2024-06-01'' scenario_A_db)"
    by code_simp
  have p: "parses ''10:00''" "parses ''11:00''"
    by code_simp+
  have fresh: "oid_B \<notin> doc_id ` set (booking_coll scenario_A_db)"
    by code_simp
  note c1 = create_booking_contract[of "request ''09:30'' ''10:30''" scenario_A_db MR1 oid_B,
      unfolded request_fields, OF f wf]
  note c2 = create_booking_contract[of "request ''10:00'' ''11:00''" scenario_A_db MR1 oid_B,
      unfolded request_fields, OF f wf]
  note c3 = create_booking_contract[of "request ''09:00'' ''09:00''" scenario_A_db MR1 oid_B,
      unfolded request_fields, OF f wf]
  have a: "fst (create_booking (request ''09:30'' ''10:30'') oid_B scenario_A_db)
      = Inl ConflictError"
    using c1 lt(1) ov by (simp add: list_ex_iff)
  have b: "snd (create_booking (request ''09:30'' ''10:30'') oid_B scenario_A_db) = scenario_A_db"
    using c1 a by blast
  have c: "fst (create_booking (request ''10:00'' ''11:00'') oid_B scenario_A_db)
      = Inr (oid_str oid_B)"
    using c2 lt(2) nov p fresh by (simp add: list_all_iff)
  have i: "oid_str oid_B = id_B"
    by code_simp
  have d: "create_booking (request ''09:00'' ''09:00'') oid_B scenario_A_db
      = (Inl ValidationError, scenario_A_db)"
    using c3 lt(3) by blast
  show ?thesis
    using f wl st lt a b c i d by simp
qed

subsection \<open>Time strings that are no times\<close>










subsection \<open>Availability\<close>

lemma minutes_open_close: "minutes open_t = Inr 480" "minutes close_t = Inr 1320"
  by code_simp+

lemma fold_mark:
  "length (fold (\<lambda>i c. if 0 \<le> i \<and> i < int (length c) then c[nat i := 1] else c) is c)
     = length c
   \<and> (\<forall>k<length c.
        fold (\<lambda>i c. if 0 \<le> i \<and> i < int (length c) then c[nat i := 1] else c) is c ! k
          = (if int k \<in> set is then 1 else c ! k))"
proof (induction "is" arbitrary: c)
  case Nil
  then show ?case by simp
next
  case (Cons i "is")
  let ?c = "if 0 \<le> i \<and> i < int (length c) then c[nat i := 1] else c"
  have l: "length ?c = length c" by simp
  have n: "\<forall>k<length c. ?c ! k = (if int k = i then 1 else c ! k)"
    by (auto simp: nth_list_update)
  show ?case
    using Cons.IH[of ?c] l n by (auto simp del: length_list_update)
qed

lemma length_mark_range [simp]: "length (mark_range lo hi c) = length c"
  using fold_mark[of "[lo..hi - 1]" c] by (simp add: mark_range_def)

lemma nth_mark_range:
  assumes "k < length c"
  shows "mark_range lo hi c ! k = (if lo \<le> int k \<and> int k < hi then 1 else c ! k)"
  using fold_mark[of "[lo..hi - 1]" c] assms by (auto simp: mark_range_def)

lemma cover_reads:
  assumes "\<forall>b\<in>set bs. reads (start_time b) \<and> reads (end_time b)" "length c = 840"
  shows "\<exists>c'. cover bs c = Inr c' \<and> length c' = 840
    \<and> (\<forall>k<840. c' ! k \<noteq> 0 \<longleftrightarrow> c ! k \<noteq> 0 \<or> (\<exists>b\<in>set bs. covers b (int k + 480)))"
  using assms
proof (induction bs arbitrary: c)
  case Nil
  then show ?case by simp
next
  case (Cons b bs)
  obtain sm em where sm: "minutes (start_time b) = Inr sm" and em: "minutes (end_time b) = Inr em"
    using Cons.prems(1) by (auto simp: reads_def split: sum.splits)
  let ?c = "mark_range (max 0 (max sm 480 - 480)) (max 0 (min em 1320 - 480)) c"
  have lc: "length ?c = 840"
    using Cons.prems(2) by simp
  have step: "cover (b # bs) c = cover bs ?c"
    by (simp add: sm em minutes_open_close)
  have mark: "?c ! k \<noteq> 0 \<longleftrightarrow> c ! k \<noteq> 0 \<or> covers b (int k + 480)" if "k < 840" for k
    using that Cons.prems(2) by (auto simp: nth_mark_range covers_def sm em)
  from Cons.IH[OF _ lc] Cons.prems(1)
  obtain c' where c': "cover bs ?c = Inr c'" "length c' = 840"
    "\<forall>k<840. c' ! k \<noteq> 0 \<longleftrightarrow> ?c ! k \<noteq> 0 \<or> (\<exists>b\<in>set bs. covers b (int k + 480))"
    by auto
  have "\<forall>k<840. c' ! k \<noteq> 0
      \<longleftrightarrow> c ! k \<noteq> 0 \<or> (\<exists>b\<in>set (b # bs). covers b (int k + 480))"
    using c'(3) mark by auto
  then show ?case
    using step c'(1,2) by simp
qed

lemma minutes_hhmm: "valid_hhmm t \<Longrightarrow> minutes t = Inr (hhmm_minutes t)"
proof -
  assume "valid_hhmm t"
  then obtain hh mm where "py_ints (split_on (CHR '':'') t) = Some [hh, mm]"
    "hhmm_minutes t = hh * 60 + mm"
    by (rule py_ints_hhmm)
  then show ?thesis by (simp add: minutes_def)
qed

lemma window_minutes:
  "(\<forall>k<840. P (int k + 480)) \<longleftrightarrow> (\<forall>m. 480 \<le> m \<and> m < 1320 \<longrightarrow> P m)"
proof
  assume a: "\<forall>k<840. P (int k + 480)"
  show "\<forall>m. 480 \<le> m \<and> m < 1320 \<longrightarrow> P m"
  proof (intro allI impI)
    fix m :: int assume m: "480 \<le> m \<and> m < 1320"
    then have "nat (m - 480) < 840" by arith
    with a have "P (int (nat (m - 480)) + 480)" by blast
    with m show "P m" by simp
  qed
next
  assume a: "\<forall>m. 480 \<le> m \<and> m < 1320 \<longrightarrow> P m"
  show "\<forall>k<840. P (int k + 480)"
    using a by simp
qed

lemma covers_booking:
  assumes "minutes a = Inr sm" "minutes b = Inr em"
  shows "covers (booking_A a b) m \<longleftrightarrow> sm \<le> m \<and> m < em"
    "covers (booking_B a b) m \<longleftrightarrow> sm \<le> m \<and> m < em"
  using assms
  by (simp_all add: covers_def booking_A_def booking_B_def new_booking_def request_def)

text \<open>
  C7, as the claim states it, fails. With an approved booking whose times do not read, the
  computation raises \<open>ValueError\<close> and returns no answer, although a pending booking
  from 08:00 to 22:00 covers every minute of the window.
\<close>

theorem availability_counterexample:
  "map (\<lambda>b. (start_time b, end_time b, status b))
      (find_active ''MR-1'' ''2024-06-01'' (run 15 covered_first_ops seeded_db))
     = [(''x'', ''y'', Approved), (''08:00'', ''22:00'', Pending)]
   \<and> minutes ''08:00'' = Inr 480 \<and> minutes ''22:00'' = Inr 1320
   \<and> availability ''MR-1'' ''2024-06-01'' (run 15 covered_first_ops seeded_db) = Inl ValueError"
  by code_simp

text \<open>
  C7, amended. For an existing facility and a date, where the times of the pending and
  approved bookings for them read: the computation returns an answer, and
  \<open>fully_occupied\<close> is true in it if and only if every minute from 480 (08:00) up to
  but not including 1320 (22:00) is covered by one of those bookings. \<open>minutes\<close>
  gives 480 and 1320 for the two ends of the window, and the minute of the day for every
  valid \<^verbatim>\<open>HH:MM\<close> string.
\<close>

theorem availability_fully_occupied:
  assumes "find_facility fc s = Some fac"
    and "\<forall>b\<in>set (find_active fc d s). reads (start_time b) \<and> reads (end_time b)"
  shows "(\<exists>r. availability fc d s = Inr r
            \<and> (fully_occupied r
                 \<longleftrightarrow> (\<forall>m. 480 \<le> m \<and> m < 1320
                        \<longrightarrow> (\<exists>b\<in>set (find_active fc d s). covers b m))))
         \<and> minutes open_t = Inr 480 \<and> minutes close_t = Inr 1320
         \<and> (\<forall>t. valid_hhmm t \<longrightarrow> minutes t = Inr (hhmm_minutes t))"
proof -
  have "length (replicate 840 (0::int)) = 840" by simp
  from cover_reads[OF assms(2) this]
  obtain c' where c': "cover (find_active fc d s) (replicate 840 0) = Inr c'" "length c' = 840"
    "\<forall>k<840. c' ! k \<noteq> 0 \<longleftrightarrow> (\<exists>b\<in>set (find_active fc d s). covers b (int k + 480))"
    by auto
  have full: "(c' \<noteq> [] \<and> list_all (\<lambda>x. x \<noteq> 0) c')
      \<longleftrightarrow> (\<forall>k<840. \<exists>b\<in>set (find_active fc d s). covers b (int k + 480))"
    using c'(2,3) by (auto simp: list_all_length)
  have "availability fc d s
      = Inr \<lparr>r_facility_code = fc, r_date = d,
             unavailable = map (\<lambda>b. (start_time b, end_time b, status b)) (find_active fc d s),
             fully_occupied = (c' \<noteq> [] \<and> list_all (\<lambda>x. x \<noteq> 0) c'),
             hours = (open_t, close_t)\<rparr>"
    using assms(1) c'(1) by (simp add: availability_def minutes_open_close)
  then have "\<exists>r. availability fc d s = Inr r
      \<and> (fully_occupied r
           \<longleftrightarrow> (\<forall>m. 480 \<le> m \<and> m < 1320 \<longrightarrow> (\<exists>b\<in>set (find_active fc d s). covers b m)))"
    using full window_minutes[of "\<lambda>m. \<exists>b\<in>set (find_active fc d s). covers b m"] by simp
  then show ?thesis
    using minutes_open_close minutes_hhmm by blast
qed

theorem availability_fully_occupied_witness:
  "find_facility ''MR-1'' tiled_db = Some MR1
   \<and> find_active ''MR-1'' ''2024-06-01'' tiled_db
       = [booking_A ''08:00'' ''12:00'', booking_B ''12:00'' ''22:00'']
   \<and> list_all (\<lambda>b. reads (start_time b) \<and> reads (end_time b))
        (find_active ''MR-1'' ''2024-06-01'' tiled_db)
   \<and> (\<exists>r. availability ''MR-1'' ''2024-06-01'' tiled_db = Inr r \<and> fully_occupied r)
   \<and> find_facility ''MR-1'' gap_db = Some MR1
   \<and> find_active ''MR-1'' ''2024-06-01'' gap_db
       = [booking_A ''08:00'' ''12:00'', booking_B ''12:01'' ''22:00'']
   \<and> list_all (\<lambda>b. reads (start_time b) \<and> reads (end_time b))
        (find_active ''MR-1'' ''2024-06-01'' gap_db)
   \<and> (\<exists>r. availability ''MR-1'' ''2024-06-01'' gap_db = Inr r \<and> \<not> fully_occupied r)"
proof -
  have f: "find_facility ''MR-1'' tiled_db = Some MR1" "find_facility ''MR-1'' gap_db = Some MR1"
    by code_simp+
  have at: "find_active ''MR-1'' ''2024-06-01'' tiled_db
      = [booking_A ''08:00'' ''12:00'', booking_B ''12:00'' ''22:00'']"
    by code_simp
  have ag: "find_active ''MR-1'' ''2024-06-01'' gap_db
      = [booking_A ''08:00'' ''12:00'', booking_B ''12:01'' ''22:00'']"
    by code_simp
  have rt: "list_all (\<lambda>b. reads (start_time b) \<and> reads (end_time b))
      (find_active ''MR-1'' ''2024-06-01'' tiled_db)"
    by code_simp
  have rg: "list_all (\<lambda>b. reads (start_time b) \<and> reads (end_time b))
      (find_active ''MR-1'' ''2024-06-01'' gap_db)"
    by code_simp
  have m: "minutes ''08:00'' = Inr 480" "minutes ''12:00'' = Inr 720"
    "minutes ''12:01'' = Inr 721" "minutes ''22:00'' = Inr 1320"
    by code_simp+
  note c = covers_booking[OF m(1) m(2)] covers_booking[OF m(2) m(4)] covers_booking[OF m(3) m(4)]
  have wt: "\<forall>b\<in>set (find_active ''MR-1'' ''2024-06-01'' tiled_db).
      reads (start_time b) \<and> reads (end_time b)"
    using rt by (simp add: list_all_iff)
  have wg: "\<forall>b\<in>set (find_active ''MR-1'' ''2024-06-01'' gap_db).
      reads (start_time b) \<and> reads (end_time b)"
    using rg by (simp add: list_all_iff)
  have allt: "\<forall>m. 480 \<le> m \<and> m < 1320
      \<longrightarrow> (\<exists>b\<in>set (find_active ''MR-1'' ''2024-06-01'' tiled_db). covers b m)"
    unfolding at by (auto simp: c)
  have "\<not> (\<exists>b\<in>set (find_active ''MR-1'' ''2024-06-01'' gap_db). covers b 720)"
    unfolding ag by (simp add: c)
  moreover have "(480::int) \<le> 720 \<and> (720::int) < 1320"
    by simp
  ultimately have notg: "\<not> (\<forall>m. 480 \<le> m \<and> m < 1320
      \<longrightarrow> (\<exists>b\<in>set (find_active ''MR-1'' ''2024-06-01'' gap_db). covers b m))"
    by blast
  have t: "\<exists>r. availability ''MR-1'' ''2024-06-01'' tiled_db = Inr r \<and> fully_occupied r"
    using availability_fully_occupied[OF f(1) wt, THEN conjunct1] allt by blast
  have g: "\<exists>r. availability ''MR-1'' ''2024-06-01'' gap_db = Inr r \<and> \<not> fully_occupied r"
    using availability_fully_occupied[OF f(2) wg, THEN conjunct1] notg by blast
  show ?thesis
    using f at ag rt rg t g by simp
qed

end
